theory Spec2Isabelle
  imports Main "HOL-Library.Word" "HOL-Library.Code_Target_Numeral"
begin

unbundle bit_operations_syntax

section \<open>Python values used by the miners\<close>

text \<open>
  A Python \<open>str\<close> is modelled as \<^typ>\<open>string\<close>, holding the UTF-8 bytes of the text.
  Symbols and motifs are ASCII in every path the miners produce themselves.
  A Python \<open>int\<close> is \<^typ>\<open>int\<close>; a list length is a \<^typ>\<open>nat\<close>.
\<close>

text \<open>\<open>xs[:k]\<close>: a negative bound counts from the end of the list.\<close>

definition py_take :: "int \<Rightarrow> 'a list \<Rightarrow> 'a list" where
  "py_take k xs = (if 0 \<le> k then take (nat k) xs else take (length xs - nat (- k)) xs)"

text \<open>\<open>sep.join(parts)\<close>.\<close>

fun join_with :: "string \<Rightarrow> string list \<Rightarrow> string" where
  "join_with sep [] = []"
| "join_with sep [p] = p"
| "join_with sep (p # q # ps) = p @ sep @ join_with sep (q # ps)"

text \<open>\<open>str(n)\<close> for a non-negative integer, as an f-string prints a count.\<close>

definition digit_char :: "nat \<Rightarrow> char" where
  "digit_char d = char_of (48 + d)"

function str_nat :: "nat \<Rightarrow> string" where
  "str_nat n = (if n < 10 then [digit_char n] else str_nat (n div 10) @ [digit_char (n mod 10)])"
  by pat_completeness auto
termination
  by (relation "measure id") auto

declare str_nat.simps [simp del]

text \<open>
  \<open>collections.Counter\<close>: a dictionary that keeps its keys in the order of their first
  insertion. \<open>counts[k] += 1\<close> updates an existing key in place and appends a new one.
\<close>

fun counter_incr :: "'a \<Rightarrow> ('a \<times> nat) list \<Rightarrow> ('a \<times> nat) list" where
  "counter_incr k [] = [(k, 1)]"
| "counter_incr k ((k', c) # rest) =
     (if k = k' then (k', Suc c) # rest else (k', c) # counter_incr k rest)"

definition counter_of :: "'a list \<Rightarrow> ('a \<times> nat) list" where
  "counter_of xs = foldl (\<lambda>c x. counter_incr x c) [] xs"

section \<open>Transition miner\<close>

definition transition_motifs :: "string list \<Rightarrow> int \<Rightarrow> string list" where
  "transition_motifs seq max_count =
     (if length seq < 2 then []
      else py_take max_count (map (\<lambda>(a, b). ''T_'' @ a @ ''_'' @ b) (zip seq (drop 1 seq))))"

section \<open>Structural miner\<close>

text \<open>
  The diversity test \<open>len(set(seq)) / len(seq) > 0.7\<close> is a floating-point comparison in
  the source; for list lengths below \<open>2 ^ 50\<close> it agrees with the exact comparison
  \<open>10 * |set seq| > 7 * |seq|\<close>, which is what is written here.
\<close>

definition structural_motifs :: "string list \<Rightarrow> string list" where
  "structural_motifs seq =
     (if length seq < 2 then []
      else
        concat (map (\<lambda>i. if seq ! i = seq ! (i + 2) \<and> seq ! i \<noteq> seq ! (i + 1)
                           then [''CYCLE_'' @ seq ! i @ ''_'' @ seq ! (i + 1)] else [])
                    [0 ..< length seq - 2])
        @ concat (map (\<lambda>(sym, k). if 5 \<le> k then [''HOT_'' @ sym @ ''_'' @ str_nat k] else [])
                      (counter_of seq))
        @ (if 0 < length seq \<and> 7 * length seq < 10 * card (set seq)
           then [''HIGH_SWITCHING''] else []))"

section \<open>Frequent-sequence miner\<close>

text \<open>
  One row of the projected database adds one to the count of each of its symbols, once:
  \<open>visited\<close> holds the symbols of the row already counted.
\<close>

fun count_row :: "'a list \<Rightarrow> 'a list \<Rightarrow> ('a \<times> nat) list \<Rightarrow> ('a \<times> nat) list" where
  "count_row [] visited counts = counts"
| "count_row (item # s) visited counts =
     (if item \<in> set visited then count_row s visited counts
      else count_row s (item # visited) (counter_incr item counts))"

definition count_items :: "'a list list \<Rightarrow> ('a \<times> nat) list" where
  "count_items projected_db = foldl (\<lambda>counts s. count_row s [] counts) [] projected_db"

text \<open>
  The new projected database: each row that holds \<open>item\<close> is cut to what follows the
  first occurrence (\<open>s[s.index(item) + 1:]\<close>); a row without it raises \<open>ValueError\<close> in
  \<open>index\<close> and is skipped.
\<close>

definition project_db :: "'a \<Rightarrow> 'a list list \<Rightarrow> 'a list list" where
  "project_db item projected_db =
     concat (map (\<lambda>s. if item \<in> set s then [drop 1 (dropWhile (\<lambda>x. x \<noteq> item) s)] else [])
                 projected_db)"

text \<open>
  \<open>project\<close> appends to the list \<open>patterns\<close> of the enclosing call; the model returns the
  patterns appended by one call, in the order of the appends.
\<close>

function project :: "int \<Rightarrow> int \<Rightarrow> 'a list \<Rightarrow> 'a list list \<Rightarrow> 'a list list" where
  "project min_support max_len prefix projected_db =
     (if max_len \<le> int (length prefix) then []
      else concat (map (\<lambda>ic.
             if min_support \<le> int (snd ic)
             then (prefix @ [fst ic]) #
                  (if int (length (prefix @ [fst ic])) < max_len
                   then project min_support max_len (prefix @ [fst ic])
                          (project_db (fst ic) projected_db)
                   else [])
             else [])
           (count_items projected_db)))"
  by pat_completeness auto
termination
  by (relation "measure (\<lambda>(min_support, max_len, prefix, projected_db).
        nat (max_len - int (length prefix)))") auto

declare project.simps [simp del]

definition prefixspan :: "'a list \<Rightarrow> int \<Rightarrow> int \<Rightarrow> 'a list list" where
  "prefixspan seq min_support max_len = project min_support max_len [] [seq]"

definition prefixspan_motifs :: "string list \<Rightarrow> int \<Rightarrow> int \<Rightarrow> string list" where
  "prefixspan_motifs seq min_support max_len =
     (if length seq < 2 then []
      else map (\<lambda>p. ''PS_'' @ join_with ''_'' p)
               (filter (\<lambda>p. 2 \<le> length p) (prefixspan seq min_support max_len)))"

section \<open>Compression miner\<close>

definition bigrams :: "'a list \<Rightarrow> ('a \<times> 'a) list" where
  "bigrams seq = map (\<lambda>i. (seq ! i, seq ! (i + 1))) [0 ..< length seq - 1]"

definition trigrams :: "'a list \<Rightarrow> ('a \<times> 'a \<times> 'a) list" where
  "trigrams seq = map (\<lambda>i. (seq ! i, seq ! (i + 1), seq ! (i + 2))) [0 ..< length seq - 2]"

definition sq_bigram :: "string \<times> string \<Rightarrow> string" where
  "sq_bigram bg = ''SQ_'' @ fst bg @ ''_'' @ snd bg"

definition sq_trigram :: "string \<times> string \<times> string \<Rightarrow> string" where
  "sq_trigram tg = ''SQ_'' @ fst tg @ ''_'' @ fst (snd tg) @ ''_'' @ snd (snd tg)"

definition repeated :: "('a \<times> nat) list \<Rightarrow> 'a list" where
  "repeated counts = map fst (filter (\<lambda>kc. 2 \<le> snd kc) counts)"

definition sequitur_rules :: "string list \<Rightarrow> string list" where
  "sequitur_rules seq =
     (if length seq < 2 then []
      else map sq_bigram (repeated (counter_of (bigrams seq)))
           @ (if 3 \<le> length seq then map sq_trigram (repeated (counter_of (trigrams seq)))
              else []))"

section \<open>SHA-1, as \<open>hashlib.sha1(s.encode()).hexdigest()\<close> computes it\<close>

type_synonym u32 = "32 word"

definition rotl32 :: "nat \<Rightarrow> u32 \<Rightarrow> u32" where
  "rotl32 n x = push_bit n x OR drop_bit (32 - n) x"

definition sha1_pad :: "nat list \<Rightarrow> nat list" where
  "sha1_pad bs =
     bs @ [128] @ replicate ((119 - length bs mod 64) mod 64) 0
     @ map (\<lambda>k. (8 * length bs) div 256 ^ k mod 256) [7, 6, 5, 4, 3, 2, 1, 0]"

fun be_words :: "nat list \<Rightarrow> u32 list" where
  "be_words (a # b # c # d # rest) =
     word_of_nat (((a * 256 + b) * 256 + c) * 256 + d) # be_words rest"
| "be_words rest = []"

fun blocks16 :: "u32 list \<Rightarrow> u32 list list" where
  "blocks16 (w0 # w1 # w2 # w3 # w4 # w5 # w6 # w7 # w8 # w9 # w10 # w11 # w12 # w13 # w14 # w15 # rest) =
     [w0, w1, w2, w3, w4, w5, w6, w7, w8, w9, w10, w11, w12, w13, w14, w15] # blocks16 rest"
| "blocks16 rest = []"

text \<open>The message schedule, over a sliding window of the last 16 words.\<close>

fun sha1_expand :: "nat \<Rightarrow> u32 list \<Rightarrow> u32 list" where
  "sha1_expand 0 win = []"
| "sha1_expand (Suc n) win =
     (let w = rotl32 1 (win ! 13 XOR win ! 8 XOR win ! 2 XOR win ! 0)
      in w # sha1_expand n (drop 1 win @ [w]))"

definition sha1_f :: "nat \<Rightarrow> u32 \<Rightarrow> u32 \<Rightarrow> u32 \<Rightarrow> u32" where
  "sha1_f t b c d =
     (if t < 20 then (b AND c) OR (NOT b AND d)
      else if t < 40 then b XOR c XOR d
      else if t < 60 then (b AND c) OR (b AND d) OR (c AND d)
      else b XOR c XOR d)"

definition sha1_k :: "nat \<Rightarrow> u32" where
  "sha1_k t =
     (if t < 20 then 0x5A827999 else if t < 40 then 0x6ED9EBA1
      else if t < 60 then 0x8F1BBCDC else 0xCA62C1D6)"

type_synonym sha1_state = "u32 \<times> u32 \<times> u32 \<times> u32 \<times> u32"

fun sha1_rounds :: "nat \<Rightarrow> u32 list \<Rightarrow> sha1_state \<Rightarrow> sha1_state" where
  "sha1_rounds t [] s = s"
| "sha1_rounds t (w # ws) (a, b, c, d, e) =
     sha1_rounds (Suc t) ws
       (rotl32 5 a + sha1_f t b c d + e + sha1_k t + w, a, rotl32 30 b, c, d)"

fun sha1_compress :: "sha1_state \<Rightarrow> u32 list \<Rightarrow> sha1_state" where
  "sha1_compress (h0, h1, h2, h3, h4) blk =
     (case sha1_rounds 0 (blk @ sha1_expand 64 blk) (h0, h1, h2, h3, h4) of
        (a, b, c, d, e) \<Rightarrow> (h0 + a, h1 + b, h2 + c, h3 + d, h4 + e))"

definition hex_digit :: "nat \<Rightarrow> char" where
  "hex_digit n = ''0123456789abcdef'' ! n"

definition hex_word :: "u32 \<Rightarrow> string" where
  "hex_word w = map (\<lambda>k. hex_digit (unat w div 16 ^ k mod 16)) [7, 6, 5, 4, 3, 2, 1, 0]"

definition sha1_digest :: "nat list \<Rightarrow> sha1_state" where
  "sha1_digest bs =
     foldl sha1_compress (0x67452301, 0xEFCDAB89, 0x98BADCFE, 0x10325476, 0xC3D2E1F0)
       (blocks16 (be_words (sha1_pad bs)))"

definition sha1_hexdigest :: "nat list \<Rightarrow> string" where
  "sha1_hexdigest bs =
     (case sha1_digest bs of (a, b, c, d, e) \<Rightarrow> concat (map hex_word [a, b, c, d, e]))"

definition sha1_hex :: "string \<Rightarrow> string" where
  "sha1_hex s = sha1_hexdigest (map of_char s)"

section \<open>Motif registry\<close>

text \<open>
  The two class-level dictionaries of \<open>MotifRegistry\<close>, shared by the whole process,
  threaded through every operation that reads or writes them.
\<close>

record registry_state =
  registry :: "string \<rightharpoonup> string"
  descriptions :: "string \<rightharpoonup> string"

definition empty_registry :: registry_state where
  "empty_registry = \<lparr>registry = Map.empty, descriptions = Map.empty\<rparr>"

definition register :: "string \<Rightarrow> string \<Rightarrow> registry_state \<Rightarrow> registry_state" where
  "register original hashed st = st\<lparr>registry := (registry st)(hashed \<mapsto> original)\<rparr>"

definition get_original :: "string \<Rightarrow> registry_state \<Rightarrow> string option" where
  "get_original hashed st = registry st hashed"

definition clear :: "registry_state \<Rightarrow> registry_state" where
  "clear st = empty_registry"

section \<open>Unifier\<close>

text \<open>
  The loop of \<open>unify_motifs\<close> over the concatenated motifs; its state is the list
  \<open>hashed\<close>, the set \<open>seen_hashes\<close> and the registry.
\<close>

fun unify_loop ::
  "bool \<Rightarrow> string list \<Rightarrow> string list \<Rightarrow> string set \<Rightarrow> registry_state
   \<Rightarrow> string list \<times> string set \<times> registry_state" where
  "unify_loop reg [] hashed seen_hashes st = (hashed, seen_hashes, st)"
| "unify_loop reg (m # motifs) hashed seen_hashes st =
     (let h = take 10 (sha1_hex m); hashed_motif = ''M_'' @ h
      in if h \<notin> seen_hashes
         then unify_loop reg motifs (hashed @ [hashed_motif]) (insert h seen_hashes)
                (if reg then register m hashed_motif st else st)
         else unify_loop reg motifs hashed seen_hashes st)"

definition unify_motifs ::
  "string list list \<Rightarrow> int \<Rightarrow> bool \<Rightarrow> registry_state \<Rightarrow> string list \<times> registry_state" where
  "unify_motifs motif_lists max_total reg st =
     (case unify_loop reg (concat motif_lists) [] {} st of
        (hashed, seen_hashes, st') \<Rightarrow> (py_take max_total hashed, st'))"

definition motifs_from_sequence ::
  "string list \<Rightarrow> int \<Rightarrow> registry_state \<Rightarrow> string list \<times> registry_state" where
  "motifs_from_sequence seq max_total st =
     (if seq = [] \<or> length seq < 2 then ([], st)
      else unify_motifs
             [transition_motifs seq 100, structural_motifs seq,
              prefixspan_motifs seq 2 4, sequitur_rules seq]
             max_total True st)"

section \<open>String operations of the descriptions\<close>

text \<open>
  Case mapping, whitespace and digits are those of ASCII; a byte above 127 is left as it
  is, has no case and is neither a digit nor white space.
\<close>

definition startswith :: "string \<Rightarrow> string \<Rightarrow> bool" where
  "startswith s p = (take (length p) s = p)"

fun contains :: "string \<Rightarrow> string \<Rightarrow> bool" where
  "contains [] sub = (sub = [])"
| "contains (c # s) sub = (startswith (c # s) sub \<or> contains s sub)"

definition is_upper :: "char \<Rightarrow> bool" where
  "is_upper c = (65 \<le> (of_char c :: nat) \<and> (of_char c :: nat) \<le> 90)"

definition is_lower :: "char \<Rightarrow> bool" where
  "is_lower c = (97 \<le> (of_char c :: nat) \<and> (of_char c :: nat) \<le> 122)"

definition is_digit :: "char \<Rightarrow> bool" where
  "is_digit c = (48 \<le> (of_char c :: nat) \<and> (of_char c :: nat) \<le> 57)"

definition is_space :: "char \<Rightarrow> bool" where
  "is_space c = ((of_char c :: nat) \<in> {9, 10, 11, 12, 13, 28, 29, 30, 31, 32})"

definition lower_char :: "char \<Rightarrow> char" where
  "lower_char c = (if is_upper c then char_of ((of_char c :: nat) + 32) else c)"

definition upper_char :: "char \<Rightarrow> char" where
  "upper_char c = (if is_lower c then char_of ((of_char c :: nat) - 32) else c)"

definition lower :: "string \<Rightarrow> string" where
  "lower s = map lower_char s"

definition upper :: "string \<Rightarrow> string" where
  "upper s = map upper_char s"

definition strip :: "string \<Rightarrow> string" where
  "strip s = rev (dropWhile is_space (rev (dropWhile is_space s)))"

text \<open>\<open>s.title()\<close>: a letter after a letter is lowered, any other letter is raised.\<close>

fun title_from :: "bool \<Rightarrow> string \<Rightarrow> string" where
  "title_from prev_cased [] = []"
| "title_from prev_cased (c # s) =
     (if is_upper c \<or> is_lower c
      then (if prev_cased then lower_char c else upper_char c) # title_from True s
      else c # title_from False s)"

definition title :: "string \<Rightarrow> string" where
  "title s = title_from False s"

text \<open>\<open>s.split(c)\<close> for a separator of one character.\<close>

fun split_on :: "char \<Rightarrow> string \<Rightarrow> string list" where
  "split_on sep [] = [[]]"
| "split_on sep (c # s) =
     (if c = sep then [] # split_on sep s
      else (case split_on sep s of [] \<Rightarrow> [[c]] | p # ps \<Rightarrow> (c # p) # ps))"

text \<open>
  \<open>s.split(sep)[-1]\<close>: what follows the last occurrence of \<open>sep\<close>, or \<open>s\<close> itself when
  there is none. Used with \<open>INTENT_\<close>, no two occurrences of which overlap.
\<close>

fun after_last :: "string \<Rightarrow> string \<Rightarrow> string" where
  "after_last sep [] = []"
| "after_last sep (c # s) =
     (if contains s sep then after_last sep s
      else if startswith (c # s) sep then drop (length sep) (c # s)
      else c # s)"

text \<open>\<open>s.replace(old, new)\<close> for a non-empty \<open>old\<close>, the only use in the source.\<close>

function py_replace :: "string \<Rightarrow> string \<Rightarrow> string \<Rightarrow> string" where
  "py_replace old new s =
     (if old = [] \<or> s = [] then s
      else if startswith s old then new @ py_replace old new (drop (length old) s)
      else hd s # py_replace old new (tl s))"
  by pat_completeness auto
termination
  by (relation "measure (\<lambda>(old, new, s). length s)") auto

declare py_replace.simps [simp del]

text \<open>
  \<open>re.search(r'_(\d+)$', s)\<close>: the digits that end the text (or stand before its final
  newline), when an underscore stands before them.
\<close>

definition trailing_count :: "string \<Rightarrow> string option" where
  "trailing_count s =
     (let body = (if s \<noteq> [] \<and> last s = CHR 0x0A then butlast s else s);
          digits = rev (takeWhile is_digit (rev body));
          front = take (length body - length digits) body
      in if digits \<noteq> [] \<and> front \<noteq> [] \<and> last front = CHR ''_'' then Some digits else None)"

text \<open>\<open>re.search(r'(\d+)', s)\<close>: the first run of digits.\<close>

definition first_digits :: "string \<Rightarrow> string option" where
  "first_digits s =
     (let digits = takeWhile is_digit (dropWhile (\<lambda>c. \<not> is_digit c) s)
      in if digits = [] then None else Some digits)"

text \<open>
  \<open>int(s, 16)\<close>, with \<open>None\<close> for \<open>ValueError\<close>: white space around, one sign, a prefix
  \<open>0x\<close>, and single underscores between the digits are accepted. The white space of
  \<open>int\<close> is tab to carriage return and the space; the separators \<open>0x1C\<close> to \<open>0x1F\<close>,
  which \<open>strip\<close> removes, are not part of it.
\<close>

definition hex_value :: "char \<Rightarrow> nat option" where
  "hex_value c =
     (if is_digit c then Some ((of_char c :: nat) - 48)
      else if 97 \<le> (of_char c :: nat) \<and> (of_char c :: nat) \<le> 102 then Some ((of_char c :: nat) - 87)
      else if 65 \<le> (of_char c :: nat) \<and> (of_char c :: nat) \<le> 70 then Some ((of_char c :: nat) - 55)
      else None)"

fun hex_digits :: "char \<Rightarrow> string \<Rightarrow> nat \<Rightarrow> nat option" where
  "hex_digits prev [] acc = (if prev = CHR ''_'' then None else Some acc)"
| "hex_digits prev (c # s) acc =
     (if c = CHR ''_'' then (if prev = CHR ''_'' then None else hex_digits c s acc)
      else (case hex_value c of None \<Rightarrow> None | Some d \<Rightarrow> hex_digits c s (16 * acc + d)))"

definition int_space :: "char \<Rightarrow> bool" where
  "int_space c = ((of_char c :: nat) \<in> {9, 10, 11, 12, 13, 32})"

definition int_base16 :: "string \<Rightarrow> int option" where
  "int_base16 s =
     (let s1 = rev (dropWhile int_space (rev (dropWhile int_space s)));
          neg = (s1 \<noteq> [] \<and> hd s1 = CHR ''-'');
          s2 = (if s1 \<noteq> [] \<and> (hd s1 = CHR ''-'' \<or> hd s1 = CHR ''+'') then tl s1 else s1);
          s3 = (if startswith s2 ''0x'' \<or> startswith s2 ''0X''
                then (if startswith (drop 2 s2) ''_'' then drop 3 s2 else drop 2 s2)
                else s2)
      in if s3 = [] \<or> hd s3 = CHR ''_'' then None
         else (case hex_digits (CHR ''0'') s3 0 of
                 None \<Rightarrow> None
               | Some v \<Rightarrow> Some (if neg then - int v else int v)))"

section \<open>Descriptions and categories\<close>

definition describe_original_pattern :: "string \<Rightarrow> string" where
  "describe_original_pattern pattern =
     (if startswith pattern ''T_''
      then (if 4 \<le> length (split_on (CHR ''_'') (drop 2 pattern))
            then ''Sequential Edit Transition'' else ''Edit Transition'')
      else if startswith pattern ''PS_''
      then (let n_events = length (filter (\<lambda>p. p = ''EV'') (split_on (CHR ''_'') (drop 3 pattern)))
            in if 3 \<le> n_events then ''Frequent '' @ str_nat n_events @ ''-Step Sequence''
               else ''Frequent Edit Sequence'')
      else if startswith pattern ''SQ_'' then ''Compressed Edit Pattern''
      else if startswith pattern ''CYCLE_'' then ''Iterative Edit Cycle''
      else if startswith pattern ''HOT_''
      then (case trailing_count pattern of
              Some count \<Rightarrow> ''Edit Hotspot ('' @ count @ ''x)''
            | None \<Rightarrow> ''Edit Hotspot'')
      else if pattern = ''HIGH_SWITCHING'' then ''High Edit Diversity''
      else if contains pattern ''INTENT_''
      then title (hd (split_on (CHR ''_'') (after_last ''INTENT_'' pattern))) @ '' Intent Signal''
      else if startswith pattern ''EV_'' then ''Edit Event''
      else ''Workflow Pattern'')"

definition pattern_types :: "string list" where
  "pattern_types =
     [''Edit Sequence'', ''Code Change Flow'', ''Multi-File Update'', ''Refactor Pattern'',
      ''Navigation Sequence'', ''Development Flow'', ''Modification Chain'', ''Workflow Step'']"

definition describe_pattern_by_type :: "string \<Rightarrow> string" where
  "describe_pattern_by_type motif =
     (if startswith motif ''M_''
      then (let hash_val = take 4 (drop 2 motif);
                idx = (case int_base16 hash_val of Some v \<Rightarrow> nat (v mod 8) | None \<Rightarrow> 0)
            in pattern_types ! idx @ '' #'' @ hash_val)
      else if startswith motif ''T_'' then ''Edit Transition''
      else if startswith motif ''PS_'' then ''Frequent Sequence''
      else if startswith motif ''SQ_'' then ''Compression Rule''
      else if startswith motif ''CYCLE_'' then ''Edit Cycle''
      else if startswith motif ''HOT'' \<or> startswith motif ''HOTSPOT''
      then (case first_digits motif of
              Some count \<Rightarrow> ''Edit Hotspot ('' @ count @ ''x)''
            | None \<Rightarrow> ''Edit Hotspot'')
      else if startswith motif ''INTENT_TYPE_''
      then title (py_replace ''_'' '' '' (py_replace ''INTENT_TYPE_'' [] motif)) @ '' Intent''
      else if startswith motif ''INTENT_TRANS'' then ''Intent Transition''
      else if startswith motif ''INTENT_''
      then title (py_replace ''_'' '' '' (py_replace ''INTENT_'' [] motif)) @ '' Signal''
      else if startswith motif ''DEPENDENCY'' then ''Dependency Traversal''
      else if contains (upper motif) ''SWITCHING'' then ''High Edit Diversity''
      else if startswith motif ''NG_'' then ''N-gram Pattern''
      else if length motif \<le> 20 then motif
      else take 17 motif @ ''...'')"

definition generate_description :: "string \<Rightarrow> registry_state \<Rightarrow> string" where
  "generate_description motif st =
     (if startswith motif ''M_'' \<and> motif \<in> dom (registry st)
      then describe_original_pattern (the (registry st motif))
      else describe_pattern_by_type motif)"

text \<open>\<open>describe\<close> answers from the cache when the motif is in it and fills it otherwise.\<close>

definition describe :: "string \<Rightarrow> registry_state \<Rightarrow> string \<times> registry_state" where
  "describe motif st =
     (case descriptions st motif of
        Some desc \<Rightarrow> (desc, st)
      | None \<Rightarrow>
          (let desc = generate_description motif st
           in (desc, st\<lparr>descriptions := (descriptions st)(motif \<mapsto> desc)\<rparr>)))"



section \<open>Events and traces\<close>

text \<open>
  The values a decoded JSON trace is made of. A dictionary is the list of its items; a
  lookup takes the first item with the key. A text that holds a surrogate code point
  (JSON \<open>"\ud83d"\<close> decodes to one) is held with that code point in the three bytes
  \<open>ED A0..BF 80..BF\<close>, which no encodable text contains.
\<close>

datatype pyval =
    PNone
  | PBool bool
  | PInt int
  | PStr string
  | PList "pyval list"
  | PDict "(string \<times> pyval) list"

datatype py_error = AttributeError | TypeError | ValueError | UnicodeEncodeError

text \<open>
  What the canonicalizer takes from outside this module: \<open>str()\<close> of a list or a
  dictionary, which may raise; \<open>str.lower()\<close> and \<open>str.strip()\<close> on a text with
  characters beyond ASCII, where case and white space are those of Unicode;
  \<open>json.loads\<close> (\<open>None\<close> when it raises \<open>JSONDecodeError\<close>); and
  \<open>intent_tokens_for_prompt\<close> of the intent classifier.
\<close>

record py_env =
  container_str :: "pyval \<Rightarrow> py_error + string"
  unicode_lower :: "string \<Rightarrow> string"
  unicode_strip :: "string \<Rightarrow> string"
  json_loads :: "string \<Rightarrow> pyval option"
  intent_tokens_for_prompt :: "string \<Rightarrow> bool \<Rightarrow> string list"

definition truthy :: "pyval \<Rightarrow> bool" where
  "truthy v =
     (case v of
        PNone \<Rightarrow> False
      | PBool b \<Rightarrow> b
      | PInt i \<Rightarrow> i \<noteq> 0
      | PStr s \<Rightarrow> s \<noteq> []
      | PList xs \<Rightarrow> xs \<noteq> []
      | PDict items \<Rightarrow> items \<noteq> [])"

definition py_or :: "pyval \<Rightarrow> pyval \<Rightarrow> pyval" where
  "py_or a b = (if truthy a then a else b)"

definition dict_get :: "(string \<times> pyval) list \<Rightarrow> string \<Rightarrow> pyval" where
  "dict_get items k = (case map_of items k of None \<Rightarrow> PNone | Some v \<Rightarrow> v)"

definition str_int :: "int \<Rightarrow> string" where
  "str_int i = (if i < 0 then CHR ''-'' # str_nat (nat (- i)) else str_nat (nat i))"

text \<open>
  \<open>str(v)\<close>. An integer of more than 4300 digits raises \<open>ValueError\<close> (the default
  limit of CPython 3.11 and later on the conversion of an integer to text).
\<close>

definition py_str :: "py_env \<Rightarrow> pyval \<Rightarrow> py_error + string" where
  "py_str E v =
     (case v of
        PNone \<Rightarrow> Inr ''None''
      | PBool b \<Rightarrow> Inr (if b then ''True'' else ''False'')
      | PInt i \<Rightarrow> (if 10 ^ 4300 \<le> \<bar>i\<bar> then Inl ValueError else Inr (str_int i))
      | PStr s \<Rightarrow> Inr s
      | _ \<Rightarrow> container_str E v)"

definition is_ascii :: "string \<Rightarrow> bool" where
  "is_ascii s = list_all (\<lambda>c. (of_char c :: nat) < 128) s"

definition py_lower :: "py_env \<Rightarrow> string \<Rightarrow> string" where
  "py_lower E s = (if is_ascii s then lower s else unicode_lower E s)"

definition py_strip :: "py_env \<Rightarrow> string \<Rightarrow> string" where
  "py_strip E s = (if is_ascii s then strip s else unicode_strip E s)"

text \<open>\<open>str(v).lower()\<close>.\<close>

definition lower_str :: "py_env \<Rightarrow> pyval \<Rightarrow> py_error + string" where
  "lower_str E v = (case py_str E v of Inl err \<Rightarrow> Inl err | Inr s \<Rightarrow> Inr (py_lower E s))"

text \<open>
  \<open>hashlib.sha1(head.encode()).hexdigest()\<close>: \<open>encode\<close> raises \<open>UnicodeEncodeError\<close> on
  a text that holds a surrogate code point.
\<close>

fun has_surrogate :: "string \<Rightarrow> bool" where
  "has_surrogate (c # d # s) =
     (((of_char c :: nat) = 0xED \<and> (0xA0 :: nat) \<le> of_char d) \<or> has_surrogate (d # s))"
| "has_surrogate s = False"

definition encode_sha1 :: "string \<Rightarrow> py_error + string" where
  "encode_sha1 s = (if has_surrogate s then Inl UnicodeEncodeError else Inr (sha1_hex s))"

text \<open>\<open>re.split(r"[._/\\\-]+", raw)\<close>: the pieces between the runs of delimiters.\<close>

definition is_delim :: "char \<Rightarrow> bool" where
  "is_delim c = (c \<in> {CHR ''.'', CHR ''_'', CHR ''/'', CHR 0x5C, CHR ''-''})"

function re_split :: "string \<Rightarrow> string list" where
  "re_split [] = [[]]"
| "re_split (c # s) =
     (if is_delim c then [] # re_split (dropWhile is_delim s)
      else (case re_split s of [] \<Rightarrow> [[c]] | p # ps \<Rightarrow> (c # p) # ps))"
  by pat_completeness auto
termination
  by (relation "measure length") (auto simp: length_dropWhile_le less_Suc_eq_le)

definition canonicalize_event :: "py_env \<Rightarrow> pyval \<Rightarrow> py_error + string" where
  "canonicalize_event E event =
     (case event of
        PDict items \<Rightarrow>
          (let event_type = py_or (py_or (dict_get items ''type'') (dict_get items ''operation''))
                                  (dict_get items ''verb'')
           in case (if event_type = PNone then Inr ''other'' else lower_str E event_type) of
                Inl err \<Rightarrow> Inl err
              | Inr raw \<Rightarrow>
                  (case re_split raw of
                     [] \<Rightarrow> Inr ''EV_OTHER''
                   | part # parts \<Rightarrow>
                       (let head = py_strip E part
                        in if head = [] then Inr ''EV_OTHER''
                           else (case encode_sha1 head of
                                   Inl err \<Rightarrow> Inl err
                                 | Inr hash_digest \<Rightarrow> Inr (''EV_'' @ take 6 hash_digest)))))
      | _ \<Rightarrow> Inr ''EV_OTHER'')"

text \<open>\<open>if text: return str(text)\<close>, and \<open>None\<close> at the end of the function otherwise.\<close>

definition prompt_field :: "py_env \<Rightarrow> pyval \<Rightarrow> py_error + string option" where
  "prompt_field E text =
     (if truthy text
      then (case py_str E text of Inl err \<Rightarrow> Inl err | Inr s \<Rightarrow> Inr (Some s))
      else Inr None)"

definition extract_prompt_from_event :: "py_env \<Rightarrow> pyval \<Rightarrow> py_error + string option" where
  "extract_prompt_from_event E event =
     (case event of
        PDict items \<Rightarrow>
          (case (case dict_get items ''type'' of
                   PNone \<Rightarrow> Inr []
                 | v \<Rightarrow> lower_str E v) of
             Inl err \<Rightarrow> Inl err
           | Inr event_type \<Rightarrow>
               (if event_type \<in> {''prompt'', ''prompt_sent'', ''conversation'', ''ai_prompt''}
                then
                  (let text = py_or (py_or (py_or (dict_get items ''text'')
                                                  (dict_get items ''content''))
                                           (dict_get items ''prompt''))
                                    (dict_get items ''message'')
                   in if truthy text then prompt_field E text
                      else
                        (case (case map_of items ''details'' of None \<Rightarrow> PDict [] | Some d \<Rightarrow> d) of
                           PDict details \<Rightarrow>
                             prompt_field E
                               (py_or (py_or (py_or (dict_get details ''text'')
                                                    (dict_get details ''content''))
                                             (dict_get details ''prompt''))
                                      (dict_get details ''message''))
                         | PStr details \<Rightarrow>
                             (case json_loads E details of
                                None \<Rightarrow> Inr None
                              | Some (PDict details_dict) \<Rightarrow>
                                  prompt_field E
                                    (py_or (py_or (dict_get details_dict ''text'')
                                                  (dict_get details_dict ''content''))
                                           (dict_get details_dict ''prompt''))
                              | Some _ \<Rightarrow> Inl AttributeError)
                         | _ \<Rightarrow> Inr None))
                else Inr None))
      | _ \<Rightarrow> Inr None)"

text \<open>The loop of \<open>event_sequence\<close> over the events; \<open>sequence\<close> is the list built so far.\<close>

fun events_loop ::
  "py_env \<Rightarrow> bool \<Rightarrow> bool \<Rightarrow> pyval list \<Rightarrow> string list \<Rightarrow> py_error + string list" where
  "events_loop E include_prompts include_llm [] sequence = Inr sequence"
| "events_loop E include_prompts include_llm (event # events) sequence =
     (case event of
        PDict items \<Rightarrow>
          (case (if include_prompts then extract_prompt_from_event E event else Inr None) of
             Inl err \<Rightarrow> Inl err
           | Inr prompt_text \<Rightarrow>
               (case canonicalize_event E event of
                  Inl err \<Rightarrow> Inl err
                | Inr canonical \<Rightarrow>
                    events_loop E include_prompts include_llm events
                      (sequence
                       @ (case prompt_text of
                            None \<Rightarrow> []
                          | Some text \<Rightarrow>
                              (if text = [] then []
                               else intent_tokens_for_prompt E text include_llm))
                       @ [canonical])))
      | _ \<Rightarrow> events_loop E include_prompts include_llm events sequence)"

text \<open>The loop over the prompts stored beside the events.\<close>

fun prompts_loop ::
  "py_env \<Rightarrow> bool \<Rightarrow> pyval list \<Rightarrow> string list \<Rightarrow> py_error + string list" where
  "prompts_loop E include_llm [] sequence = Inr sequence"
| "prompts_loop E include_llm (prompt_data # prompts) sequence =
     (case prompt_data of
        PDict items \<Rightarrow>
          (let prompt_text = py_or (py_or (dict_get items ''text'') (dict_get items ''content''))
                                   (dict_get items ''prompt'')
           in if truthy prompt_text
              then (case py_str E prompt_text of
                      Inl err \<Rightarrow> Inl err
                    | Inr text \<Rightarrow>
                        prompts_loop E include_llm prompts
                          (sequence @ intent_tokens_for_prompt E text include_llm))
              else prompts_loop E include_llm prompts sequence)
      | _ \<Rightarrow> prompts_loop E include_llm prompts sequence)"

text \<open>
  Iterating a string or a dictionary yields strings, none of which is a dictionary, so
  the loop over them adds nothing; \<open>None\<close>, a boolean and an integer cannot be iterated.
\<close>

definition event_sequence ::
  "py_env \<Rightarrow> pyval \<Rightarrow> bool \<Rightarrow> bool \<Rightarrow> py_error + string list" where
  "event_sequence E trace include_prompts include_llm =
     (case trace of
        PDict items \<Rightarrow>
          (case (case map_of items ''events'' of None \<Rightarrow> PList [] | Some v \<Rightarrow> v) of
             PList events \<Rightarrow>
               (case events_loop E include_prompts include_llm events [] of
                  Inl err \<Rightarrow> Inl err
                | Inr sequence \<Rightarrow>
                    (if include_prompts \<and> ''prompts'' \<in> dom (map_of items)
                     then (case dict_get items ''prompts'' of
                             PList prompts \<Rightarrow> prompts_loop E include_llm prompts sequence
                           | PStr text \<Rightarrow> Inr sequence
                           | PDict other \<Rightarrow> Inr sequence
                           | _ \<Rightarrow> Inl TypeError)
                     else Inr sequence))
           | _ \<Rightarrow> Inr [])
      | _ \<Rightarrow> Inr [])"

section \<open>Notions the properties are stated with\<close>

text \<open>The distinct elements of a list, in the order of their first occurrence.\<close>

fun first_occurrences :: "'a list \<Rightarrow> 'a list" where
  "first_occurrences [] = []"
| "first_occurrences (x # xs) = x # filter (\<lambda>y. y \<noteq> x) (first_occurrences xs)"

text \<open>The hashed form of a raw motif: \<open>M_\<close> and the first 10 hex digits of its SHA-1.\<close>

definition hashed_form :: "string \<Rightarrow> string" where
  "hashed_form m = ''M_'' @ take 10 (sha1_hex m)"

text \<open>
  The trace of the end-to-end example: three events with the declared types
  \<open>file.create\<close>, \<open>file.modify\<close>, \<open>file.create\<close>, and no prompt anywhere.
\<close>

definition typed_event :: "string \<Rightarrow> pyval" where
  "typed_event t = PDict [(''type'', PStr t)]"

definition file_trace :: pyval where
  "file_trace =
     PDict [(''events'',
             PList [typed_event ''file.create'', typed_event ''file.modify'',
                    typed_event ''file.create''])]"

text \<open>The symbol of the head \<open>file\<close>.\<close>

definition file_symbol :: string where
  "file_symbol = ''EV_'' @ take 6 (sha1_hex ''file'')"

text \<open>
  An environment for closed examples: texts beyond ASCII are left as they are, and the
  other collaborators return nothing.
\<close>

definition quiet_env :: py_env where
  "quiet_env =
     \<lparr>container_str = (\<lambda>v. Inr []), unicode_lower = (\<lambda>s. s), unicode_strip = (\<lambda>s. s),
      json_loads = (\<lambda>s. None), intent_tokens_for_prompt = (\<lambda>prompt include_llm. [])\<rparr>"

section \<open>Properties\<close>

subsection \<open>Counters\<close>

lemma py_take_nonneg: "0 \<le> k \<Longrightarrow> py_take k xs = take (nat k) xs"
  by (simp add: py_take_def)

lemma keys_counter_incr:
  "map fst (counter_incr k c) = (if k \<in> fst ` set c then map fst c else map fst c @ [k])"
  by (induction c) (force+)

lemma counter_incr_fresh: "k \<notin> fst ` set c \<Longrightarrow> counter_incr k c = c @ [(k, 1)]"
  by (induction c) auto

lemma distinct_counter_incr:
  "distinct (map fst c) \<Longrightarrow> distinct (map fst (counter_incr k c))"
  by (simp add: keys_counter_incr)

lemma map_of_counter_incr:
  "map_of (counter_incr k c) =
     (map_of c)(k \<mapsto> Suc (case map_of c k of None \<Rightarrow> 0 | Some n \<Rightarrow> n))"
  by (induction c) (auto simp: fun_eq_iff)

lemma foldl_counter_distinct:
  "distinct (map fst c) \<Longrightarrow> distinct (map fst (foldl (\<lambda>c x. counter_incr x c) c xs))"
  by (induction xs arbitrary: c) (auto simp: distinct_counter_incr)

lemma foldl_counter_map_of:
  "map_of (foldl (\<lambda>c x. counter_incr x c) c xs) k =
     (if k \<in> set xs
      then Some (count_list xs k + (case map_of c k of None \<Rightarrow> 0 | Some n \<Rightarrow> n))
      else map_of c k)"
proof (induction xs arbitrary: c)
  case Nil
  then show ?case by simp
next
  case (Cons x xs)
  show ?case
    by (simp add: Cons.IH map_of_counter_incr)
qed

lemma distinct_counter_of: "distinct (map fst (counter_of xs))"
  by (simp add: counter_of_def foldl_counter_distinct)

lemma map_of_counter_of:
  "map_of (counter_of xs) k = (if k \<in> set xs then Some (count_list xs k) else None)"
  by (simp add: counter_of_def foldl_counter_map_of)

lemma counter_of_mem:
  "(k, c) \<in> set (counter_of xs) \<longleftrightarrow> k \<in> set xs \<and> c = count_list xs k"
proof -
  have "(k, c) \<in> set (counter_of xs) \<longleftrightarrow> map_of (counter_of xs) k = Some c"
    using distinct_counter_of [of xs] by simp
  then show ?thesis
    by (auto simp: map_of_counter_of)
qed

lemma distinct_repeated: "distinct (map fst counts) \<Longrightarrow> distinct (repeated counts)"
  by (simp add: repeated_def distinct_map_filter)

lemma set_repeated_counter_of:
  "set (repeated (counter_of xs)) = {k. 2 \<le> count_list xs k}"
proof -
  have "k \<in> set (repeated (counter_of xs)) \<longleftrightarrow> 2 \<le> count_list xs k" for k
  proof -
    have "k \<in> set (repeated (counter_of xs)) \<longleftrightarrow> (\<exists>c. (k, c) \<in> set (counter_of xs) \<and> 2 \<le> c)"
      by (force simp: repeated_def)
    also have "\<dots> \<longleftrightarrow> k \<in> set xs \<and> 2 \<le> count_list xs k"
      by (simp add: counter_of_mem)
    also have "\<dots> \<longleftrightarrow> 2 \<le> count_list xs k"
      using count_list_0_iff [of xs k] by auto
    finally show ?thesis .
  qed
  then show ?thesis by blast
qed

lemma count_list_card: "count_list xs y = card {i. i < length xs \<and> xs ! i = y}"
proof (induction xs rule: rev_induct)
  case Nil
  then show ?case by simp
next
  case (snoc x xs)
  have split: "{i. i < length (xs @ [x]) \<and> (xs @ [x]) ! i = y} =
      {i. i < length xs \<and> xs ! i = y} \<union> (if x = y then {length xs} else {})"
    by (auto simp: nth_append less_Suc_eq)
  show ?case
    by (simp only: split) (simp add: snoc.IH)
qed

lemma count_bigrams:
  "count_list (bigrams seq) bg = card {i. i + 1 < length seq \<and> (seq ! i, seq ! (i + 1)) = bg}"
proof -
  have "{i. i < length (bigrams seq) \<and> bigrams seq ! i = bg} =
        {i. i + 1 < length seq \<and> (seq ! i, seq ! (i + 1)) = bg}"
    by (auto simp: bigrams_def)
  then show ?thesis by (simp add: count_list_card)
qed

lemma count_trigrams:
  "count_list (trigrams seq) tg =
     card {i. i + 2 < length seq \<and> (seq ! i, seq ! (i + 1), seq ! (i + 2)) = tg}"
proof -
  have "{i. i < length (trigrams seq) \<and> trigrams seq ! i = tg} =
        {i. i + 2 < length seq \<and> (seq ! i, seq ! (i + 1), seq ! (i + 2)) = tg}"
    by (auto simp: trigrams_def)
  then show ?thesis by (simp add: count_list_card)
qed

subsection \<open>Frequent-sequence miner\<close>

text \<open>A single row gives every symbol the count 1.\<close>

lemma count_row_le_one:
  "fst ` set counts \<subseteq> set visited \<Longrightarrow> \<forall>kc \<in> set counts. snd kc \<le> 1 \<Longrightarrow>
   \<forall>kc \<in> set (count_row s visited counts). snd kc \<le> 1"
proof (induction s arbitrary: visited counts)
  case Nil
  then show ?case by simp
next
  case (Cons item s)
  show ?case
  proof (cases "item \<in> set visited")
    case True
    then show ?thesis using Cons by simp
  next
    case False
    then have fresh: "item \<notin> fst ` set counts" using Cons.prems(1) by auto
    have incr: "counter_incr item counts = counts @ [(item, 1)]"
      using fresh by (rule counter_incr_fresh)
    have keys: "fst ` set (counter_incr item counts) \<subseteq> set (item # visited)"
      using Cons.prems(1) by (auto simp: incr)
    have small: "\<forall>kc \<in> set (counter_incr item counts). snd kc \<le> 1"
      using Cons.prems(2) by (auto simp: incr)
    show ?thesis
      using False Cons.IH [OF keys small] by simp
  qed
qed

lemma count_items_single: "\<forall>kc \<in> set (count_items [s]). snd kc \<le> 1"
  using count_row_le_one [of "[]" "[]" s] by (simp add: count_items_def)

lemma project_single_row:
  assumes "2 \<le> min_support"
  shows "project min_support max_len prefix [s] = []"
proof -
  have "\<And>ic. ic \<in> set (count_items [s]) \<Longrightarrow> \<not> min_support \<le> int (snd ic)"
    using count_items_single [of s] assms by fastforce
  then show ?thesis
    by (subst project.simps) (simp cong: map_cong)
qed

text \<open>
  C2. For every sequence and every \<open>min_support\<close> of at least 2, whatever \<open>max_len\<close>,
  \<open>prefixspan\<close> returns no pattern: it starts from the database of the single row \<open>[seq]\<close>,
  where every symbol is counted once. So \<open>prefixspan_motifs\<close> emits no \<open>PS_\<close> motif,
  in particular with the arguments 2 and 4 that \<open>motifs_from_sequence\<close> passes.
\<close>

theorem prefixspan_single_row_never_frequent:
  assumes "2 \<le> min_support"
  shows "prefixspan S min_support max_len = [] \<and> prefixspan_motifs S min_support max_len = []"
  using project_single_row [OF assms, of max_len "[]" S]
  by (simp add: prefixspan_def prefixspan_motifs_def)

theorem prefixspan_single_row_never_frequent_witness:
  "(2 :: int) \<le> 3 \<and> prefixspan [''X'', ''Y'', ''X'', ''Y''] 3 5 = []
   \<and> prefixspan_motifs [''X'', ''Y'', ''X'', ''Y''] 3 5 = []"
  using prefixspan_single_row_never_frequent [of 3 "[''X'', ''Y'', ''X'', ''Y'']" 5]
  by simp

text \<open>
  C1. On \<open>[A, B, A, B, C]\<close> with \<open>min_support = 2\<close> and \<open>max_len = 4\<close> the miner is expected to
  emit \<open>PS_A_B\<close>. What \<open>prefixspan_motifs\<close> returns there is the empty list.
\<close>

theorem prefixspan_floor_returns_nothing:
  "prefixspan_motifs [A, B, A, B, C] 2 4 = []"
  using project_single_row [of 2 4 "[]" "[A, B, A, B, C]"]
  by (simp add: prefixspan_def prefixspan_motifs_def)

subsection \<open>Transition miner\<close>

text \<open>
  C8, as the code has it. For a cap \<open>max_count\<close> that is not negative, a sequence of
  \<open>n \<ge> 2\<close> symbols gives \<open>min (n - 1) max_count\<close> motifs, the \<open>i\<close>-th being
  \<open>T_<S[i]>_<S[i+1]>\<close>; a shorter sequence gives none.
\<close>

theorem transition_motifs_count:
  assumes "0 \<le> max_count"
  shows "(2 \<le> length S \<longrightarrow>
            length (transition_motifs S max_count) = min (length S - 1) (nat max_count) \<and>
            (\<forall>i < length (transition_motifs S max_count).
               transition_motifs S max_count ! i = ''T_'' @ S ! i @ ''_'' @ S ! (i + 1)))
         \<and> (length S < 2 \<longrightarrow> transition_motifs S max_count = [])"
  using assms by (auto simp: transition_motifs_def py_take_nonneg nth_tl)

theorem transition_motifs_count_witness:
  "(0 :: int) \<le> 1 \<and> 2 \<le> length [''A'', ''B'', ''C'']
   \<and> length (transition_motifs [''A'', ''B'', ''C''] 1) = min (length [''A'', ''B'', ''C''] - 1) (nat 1)
   \<and> transition_motifs [''A'', ''B'', ''C''] 1 ! 0 = ''T_A_B''"
  using transition_motifs_count [of 1 "[''A'', ''B'', ''C'']"]
  by (simp add: transition_motifs_def py_take_def)

text \<open>
  C8, as it is stated, for every \<open>max_count\<close>: with the cap \<open>- 1\<close> the slice
  \<open>motifs[:-1]\<close> drops the last motif, and three symbols give one motif, which is not
  \<open>min (3 - 1) (- 1)\<close>.
\<close>

theorem transition_motifs_negative_cap:
  "transition_motifs [''A'', ''B'', ''C''] (- 1) = [''T_A_B''] \<and>
   int (length (transition_motifs [''A'', ''B'', ''C''] (- 1)))
     \<noteq> min (int (length [''A'', ''B'', ''C'']) - 1) (- 1)"
  by (simp add: transition_motifs_def py_take_def)

subsection \<open>Compression miner\<close>

lemma sequitur_xyxy_distinct:
  "X \<noteq> Y \<Longrightarrow> sequitur_rules [X, Y, X, Y] = [''SQ_'' @ X @ ''_'' @ Y]"
  by (simp add: sequitur_rules_def bigrams_def trigrams_def counter_of_def repeated_def
      sq_bigram_def sq_trigram_def upt_rec numeral_eq_Suc)

lemma sequitur_xxxx:
  "sequitur_rules [X, X, X, X] = [''SQ_'' @ X @ ''_'' @ X, ''SQ_'' @ X @ ''_'' @ X @ ''_'' @ X]"
  by (simp add: sequitur_rules_def bigrams_def trigrams_def counter_of_def repeated_def
      sq_bigram_def sq_trigram_def upt_rec numeral_eq_Suc)

lemma sequitur_threshold:
  "count_list (sequitur_rules [X, Y, X, Y]) (''SQ_'' @ X @ ''_'' @ Y) = 1"
proof (cases "X = Y")
  case True
  have "length (X @ ''_'' @ X @ ''_'' @ X) \<noteq> length (X @ ''_'' @ X)" by simp
  then have "X @ ''_'' @ X @ ''_'' @ X \<noteq> X @ ''_'' @ X" by metis
  then show ?thesis using True by (simp add: sequitur_xxxx)
next
  case False
  then show ?thesis by (simp add: sequitur_xyxy_distinct)
qed

lemma sequitur_rules_windows:
  assumes "2 \<le> length S"
  shows "\<exists>bs ts.
      sequitur_rules S = map sq_bigram bs @ map sq_trigram ts
    \<and> distinct bs
    \<and> set bs = {bg. 2 \<le> card {i. i + 1 < length S \<and> (S ! i, S ! (i + 1)) = bg}}
    \<and> distinct ts
    \<and> set ts = {tg. 2 \<le> card {i. i + 2 < length S \<and> (S ! i, S ! (i + 1), S ! (i + 2)) = tg}}"
proof -
  define bs where "bs = repeated (counter_of (bigrams S))"
  define ts where "ts = repeated (counter_of (trigrams S))"
  have short: "trigrams S = []" if "length S < 3"
    using that by (simp add: trigrams_def)
  have ts_empty: "ts = []" if "length S < 3"
    using short [OF that] by (simp add: ts_def counter_of_def repeated_def)
  have out: "sequitur_rules S = map sq_bigram bs @ map sq_trigram ts"
    using assms ts_empty by (auto simp: sequitur_rules_def bs_def ts_def)
  have d1: "distinct bs"
    unfolding bs_def by (rule distinct_repeated) (rule distinct_counter_of)
  have d2: "distinct ts"
    unfolding ts_def by (rule distinct_repeated) (rule distinct_counter_of)
  have s1: "set bs = {bg. 2 \<le> card {i. i + 1 < length S \<and> (S ! i, S ! (i + 1)) = bg}}"
    unfolding bs_def by (simp add: set_repeated_counter_of count_bigrams)
  have s2: "set ts = {tg. 2 \<le> card {i. i + 2 < length S \<and> (S ! i, S ! (i + 1), S ! (i + 2)) = tg}}"
    unfolding ts_def by (simp add: set_repeated_counter_of count_trigrams)
  from out d1 d2 s1 s2 show ?thesis by blast
qed

lemma sq_bigram_text: "sq_bigram = (\<lambda>(a, b). ''SQ_'' @ a @ ''_'' @ b)"
  by (auto simp: sq_bigram_def fun_eq_iff)

lemma sq_trigram_text: "sq_trigram = (\<lambda>(a, b, c). ''SQ_'' @ a @ ''_'' @ b @ ''_'' @ c)"
  by (auto simp: sq_trigram_def fun_eq_iff)

lemma sequitur_xyzxyz:
  "sequitur_rules [''X'', ''Y'', ''Z'', ''X'', ''Y'', ''Z''] = [''SQ_X_Y'', ''SQ_Y_Z'', ''SQ_X_Y_Z'']"
  by (simp add: sequitur_rules_def bigrams_def trigrams_def counter_of_def repeated_def
      sq_bigram_def sq_trigram_def upt_rec numeral_eq_Suc)

text \<open>
  C10. For a sequence of at least two symbols the output of \<open>sequitur_rules\<close> is the text
  \<open>SQ_<a>_<b>\<close> for each adjacent bigram \<open>(a, b)\<close> that occurs at least twice, each bigram
  once, followed by the text \<open>SQ_<a>_<b>_<c>\<close> for each adjacent trigram \<open>(a, b, c)\<close> that
  occurs at least twice, each trigram once (there is none below three symbols); so the
  output has as many motifs as there are such bigrams and trigrams. On \<open>[X, Y, X, Y]\<close>
  the motif \<open>SQ_X_Y\<close> occurs exactly once in the output.
\<close>

theorem sequitur_rules_repeated_windows:
  "(2 \<le> length S \<longrightarrow>
     (\<exists>bs ts.
        sequitur_rules S
          = map (\<lambda>(a, b). ''SQ_'' @ a @ ''_'' @ b) bs
            @ map (\<lambda>(a, b, c). ''SQ_'' @ a @ ''_'' @ b @ ''_'' @ c) ts
      \<and> distinct bs
      \<and> set bs = {bg. 2 \<le> card {i. i + 1 < length S \<and> (S ! i, S ! (i + 1)) = bg}}
      \<and> distinct ts
      \<and> set ts = {tg. 2 \<le> card {i. i + 2 < length S \<and> (S ! i, S ! (i + 1), S ! (i + 2)) = tg}}
      \<and> length (sequitur_rules S)
          = card {bg. 2 \<le> card {i. i + 1 < length S \<and> (S ! i, S ! (i + 1)) = bg}}
            + card {tg. 2 \<le> card {i. i + 2 < length S \<and> (S ! i, S ! (i + 1), S ! (i + 2)) = tg}}))
   \<and> count_list (sequitur_rules [X, Y, X, Y]) (''SQ_'' @ X @ ''_'' @ Y) = 1"
proof -
  have general: "\<exists>bs ts.
        sequitur_rules S
          = map (\<lambda>(a, b). ''SQ_'' @ a @ ''_'' @ b) bs
            @ map (\<lambda>(a, b, c). ''SQ_'' @ a @ ''_'' @ b @ ''_'' @ c) ts
      \<and> distinct bs
      \<and> set bs = {bg. 2 \<le> card {i. i + 1 < length S \<and> (S ! i, S ! (i + 1)) = bg}}
      \<and> distinct ts
      \<and> set ts = {tg. 2 \<le> card {i. i + 2 < length S \<and> (S ! i, S ! (i + 1), S ! (i + 2)) = tg}}
      \<and> length (sequitur_rules S)
          = card {bg. 2 \<le> card {i. i + 1 < length S \<and> (S ! i, S ! (i + 1)) = bg}}
            + card {tg. 2 \<le> card {i. i + 2 < length S \<and> (S ! i, S ! (i + 1), S ! (i + 2)) = tg}}"
    if long: "2 \<le> length S"
  proof -
    obtain bs ts where out: "sequitur_rules S = map sq_bigram bs @ map sq_trigram ts"
      and d1: "distinct bs"
      and s1: "set bs = {bg. 2 \<le> card {i. i + 1 < length S \<and> (S ! i, S ! (i + 1)) = bg}}"
      and d2: "distinct ts"
      and s2: "set ts = {tg. 2 \<le> card {i. i + 2 < length S \<and> (S ! i, S ! (i + 1), S ! (i + 2)) = tg}}"
      using sequitur_rules_windows [OF long] by blast
    have len: "length (sequitur_rules S) = card (set bs) + card (set ts)"
      using d1 d2 by (simp add: out distinct_card)
    have out': "sequitur_rules S
          = map (\<lambda>(a, b). ''SQ_'' @ a @ ''_'' @ b) bs
            @ map (\<lambda>(a, b, c). ''SQ_'' @ a @ ''_'' @ b @ ''_'' @ c) ts"
      using out by (simp only: sq_bigram_text sq_trigram_text)
    show ?thesis
      using out' d1 s1 d2 s2 len by (intro exI [of _ bs] exI [of _ ts]) simp
  qed
  from general sequitur_threshold [of X Y] show ?thesis by blast
qed

theorem sequitur_rules_repeated_windows_witness:
  "2 \<le> length [''X'', ''Y'', ''Z'', ''X'', ''Y'', ''Z'']
   \<and> (\<exists>bs ts.
        sequitur_rules [''X'', ''Y'', ''Z'', ''X'', ''Y'', ''Z'']
          = map (\<lambda>(a, b). ''SQ_'' @ a @ ''_'' @ b) bs
            @ map (\<lambda>(a, b, c). ''SQ_'' @ a @ ''_'' @ b @ ''_'' @ c) ts
      \<and> distinct bs \<and> distinct ts)
   \<and> sequitur_rules [''X'', ''Y'', ''Z'', ''X'', ''Y'', ''Z''] = [''SQ_X_Y'', ''SQ_Y_Z'', ''SQ_X_Y_Z'']
   \<and> count_list (sequitur_rules [''X'', ''Y'', ''X'', ''Y'']) ''SQ_X_Y'' = 1"
proof -
  have h: "2 \<le> length [''X'', ''Y'', ''Z'', ''X'', ''Y'', ''Z'']" by simp
  have c: "''SQ_'' @ ''X'' @ ''_'' @ ''Y'' = ''SQ_X_Y''" by simp
  from sequitur_rules_repeated_windows [of "[''X'', ''Y'', ''Z'', ''X'', ''Y'', ''Z'']" "''X''" "''Y''"] h
  show ?thesis unfolding c using sequitur_xyzxyz by blast
qed

subsection \<open>Registry\<close>

lemma unify_loop_registry:
  "registry (snd (snd (unify_loop True ms hashed seen st))) k =
     (case find (\<lambda>m. ''M_'' @ take 10 (sha1_hex m) = k \<and> take 10 (sha1_hex m) \<notin> seen) ms of
        Some m \<Rightarrow> Some m
      | None \<Rightarrow> registry st k)"
proof (induction ms arbitrary: hashed seen st)
  case Nil
  then show ?case by simp
next
  case (Cons m ms)
  let ?h = "take 10 (sha1_hex m)"
  show ?case
  proof (cases "?h \<in> seen")
    case True
    then show ?thesis by (simp add: Cons.IH Let_def)
  next
    case False
    show ?thesis
    proof (cases "''M_'' @ ?h = k")
      case True
      have "find (\<lambda>m'. ''M_'' @ take 10 (sha1_hex m') = k \<and> take 10 (sha1_hex m') \<notin> insert ?h seen) ms = None"
        using True by (auto simp: find_None_iff)
      then show ?thesis
        using False True by (simp add: Cons.IH Let_def register_def)
    next
      case neq: False
      have "find (\<lambda>m'. ''M_'' @ take 10 (sha1_hex m') = k \<and> take 10 (sha1_hex m') \<notin> insert ?h seen) ms
          = find (\<lambda>m'. ''M_'' @ take 10 (sha1_hex m') = k \<and> take 10 (sha1_hex m') \<notin> seen) ms"
        using neq by (intro find_cong) auto
      then show ?thesis
        using False neq by (auto simp: Cons.IH Let_def register_def split: option.splits)
    qed
  qed
qed

lemma unify_loop_no_register:
  "snd (snd (unify_loop False ms hashed seen st)) = st"
  by (induction ms arbitrary: hashed seen) (auto simp: Let_def)

lemma unify_loop_descriptions:
  "descriptions (snd (snd (unify_loop reg ms hashed seen st))) = descriptions st"
  by (induction ms arbitrary: hashed seen st) (auto simp: Let_def register_def)




subsection \<open>Unifier\<close>

lemma set_first_occurrences: "set (first_occurrences xs) = set xs"
  by (induction xs) auto



lemma first_occurrences_distinct: "distinct xs \<Longrightarrow> first_occurrences xs = xs"
  by (induction xs) (auto simp: filter_id_conv set_first_occurrences)

lemma unify_loop_hashed:
  "fst (unify_loop reg ms hashed seen st) =
     hashed @ map (\<lambda>h. ''M_'' @ h)
                  (filter (\<lambda>h. h \<notin> seen) (first_occurrences (map (\<lambda>m. take 10 (sha1_hex m)) ms)))"
proof (induction ms arbitrary: hashed seen st)
  case Nil
  then show ?case by simp
next
  case (Cons m ms)
  let ?h = "take 10 (sha1_hex m)"
  let ?fo = "first_occurrences (map (\<lambda>m. take 10 (sha1_hex m)) ms)"
  show ?case
  proof (cases "?h \<in> seen")
    case True
    have "filter (\<lambda>h. h \<notin> seen) (filter (\<lambda>y. y \<noteq> ?h) ?fo) = filter (\<lambda>h. h \<notin> seen) ?fo"
      using True by (auto intro: filter_cong)
    then show ?thesis using True by (simp add: Cons.IH Let_def)
  next
    case False
    have "filter (\<lambda>h. h \<notin> seen) (filter (\<lambda>y. y \<noteq> ?h) ?fo) = filter (\<lambda>h. h \<notin> insert ?h seen) ?fo"
      by (auto intro: filter_cong)
    then show ?thesis using False by (simp add: Cons.IH Let_def)
  qed
qed

lemma map_hashed_first_occurrences:
  "map (\<lambda>h. ''M_'' @ h) (first_occurrences (map (\<lambda>m. take 10 (sha1_hex m)) ms))
   = first_occurrences (map hashed_form ms)"
proof (induction ms)
  case Nil
  then show ?case by simp
next
  case (Cons m ms)
  have "map (\<lambda>h. ''M_'' @ h) (filter (\<lambda>y. y \<noteq> take 10 (sha1_hex m)) xs)
      = filter (\<lambda>y. y \<noteq> hashed_form m) (map (\<lambda>h. ''M_'' @ h) xs)" for xs
    by (induction xs) (auto simp: hashed_form_def)
  then show ?case using Cons by (simp add: hashed_form_def)
qed

lemma unify_motifs_out:
  "fst (unify_motifs motif_lists max_total reg st) =
     py_take max_total (first_occurrences (map hashed_form (concat motif_lists)))"
proof -
  obtain hashed seen st' where loop: "unify_loop reg (concat motif_lists) [] {} st = (hashed, seen, st')"
    by (cases "unify_loop reg (concat motif_lists) [] {} st") auto
  have "hashed = fst (unify_loop reg (concat motif_lists) [] {} st)"
    by (simp add: loop)
  also have "\<dots> = map (\<lambda>h. ''M_'' @ h)
       (first_occurrences (map (\<lambda>m. take 10 (sha1_hex m)) (concat motif_lists)))"
    using unify_loop_hashed [of reg "concat motif_lists" "[]" "{}" st] by simp
  also have "\<dots> = first_occurrences (map hashed_form (concat motif_lists))"
    by (rule map_hashed_first_occurrences)
  finally show ?thesis
    by (simp add: unify_motifs_def loop)
qed





subsection \<open>Descriptions and categories\<close>










text \<open>
  C9. From a cleared registry, \<open>unify_motifs\<close> on \<open>["T_A_B"]\<close> with \<open>register=True\<close>
  returns the one hashed form of \<open>T_A_B\<close>; \<open>get_original\<close> of it is \<open>T_A_B\<close>, and
  \<open>describe\<close> of it is the description of the registered raw motif, the transition phrase
  \<open>Edit Transition\<close>.
\<close>

theorem registry_round_trip:
  "fst (unify_motifs [[''T_A_B'']] 300 True (clear st)) = [hashed_form ''T_A_B'']
   \<and> get_original (hashed_form ''T_A_B'') (snd (unify_motifs [[''T_A_B'']] 300 True (clear st)))
       = Some ''T_A_B''
   \<and> fst (describe (hashed_form ''T_A_B'') (snd (unify_motifs [[''T_A_B'']] 300 True (clear st))))
       = describe_original_pattern ''T_A_B''
   \<and> describe_original_pattern ''T_A_B'' = ''Edit Transition''"
  by (simp add: unify_motifs_def Let_def clear_def empty_registry_def register_def get_original_def
      describe_def generate_description_def startswith_def describe_original_pattern_def
      hashed_form_def py_take_def)

subsection \<open>Canonicalizer\<close>

lemma length_hex_word: "length (hex_word w) = 8"
  by (simp add: hex_word_def)

lemma length_sha1_hexdigest: "length (sha1_hexdigest bs) = 40"
  by (simp add: sha1_hexdigest_def length_hex_word split: prod.splits)

lemma length_sha1_hex: "length (sha1_hex s) = 40"
  by (simp add: sha1_hex_def length_sha1_hexdigest)

lemma symbol_not_sentinel: "''EV_'' @ take 6 (sha1_hex s) \<noteq> ''EV_OTHER''"
proof
  assume "''EV_'' @ take 6 (sha1_hex s) = ''EV_OTHER''"
  then have "length (''EV_'' @ take 6 (sha1_hex s)) = length ''EV_OTHER''"
    by (rule arg_cong)
  then show False by (simp add: length_sha1_hex)
qed

lemma re_split_other: "re_split ''other'' = [''other'']"
  by (simp add: is_delim_def)

lemma py_strip_other: "py_strip E ''other'' = ''other''"
  by (simp add: py_strip_def is_ascii_def strip_def is_space_def)

lemma encode_sha1_other: "encode_sha1 ''other'' = Inr (sha1_hex ''other'')"
  by (simp add: encode_sha1_def)

lemma canonicalize_missing_type:
  assumes "dict_get items ''type'' = PNone" "dict_get items ''operation'' = PNone"
    "dict_get items ''verb'' = PNone"
  shows "canonicalize_event E (PDict items) = Inr (''EV_'' @ take 6 (sha1_hex ''other''))"
  using assms
  by (simp add: canonicalize_event_def py_or_def truthy_def re_split_other py_strip_other
      encode_sha1_other Let_def del: re_split.simps)

text \<open>
  C4, as the code has it. An input that is not a record gives the sentinel \<open>EV_OTHER\<close>.
  A record with no declared type (\<open>type\<close>, \<open>operation\<close> and \<open>verb\<close> all missing or
  \<open>None\<close>) takes the default type \<open>other\<close> and gives the hashed symbol of that head,
  \<open>EV_\<close> and the first 6 hex digits of the SHA-1 of \<open>other\<close>, which is not the sentinel.
  Both are results: nothing is raised on these inputs.
\<close>

theorem canonicalize_event_sentinel:
  "((\<forall>items. event \<noteq> PDict items) \<longrightarrow> canonicalize_event E event = Inr ''EV_OTHER'')
   \<and> (dict_get items ''type'' = PNone \<and> dict_get items ''operation'' = PNone
        \<and> dict_get items ''verb'' = PNone \<longrightarrow>
        canonicalize_event E (PDict items) = Inr (''EV_'' @ take 6 (sha1_hex ''other''))
        \<and> canonicalize_event E (PDict items) \<noteq> Inr ''EV_OTHER'')"
proof -
  have a: "canonicalize_event E event = Inr ''EV_OTHER''" if "\<forall>items. event \<noteq> PDict items"
    using that by (cases event) (simp_all add: canonicalize_event_def)
  have b: "canonicalize_event E (PDict items) = Inr (''EV_'' @ take 6 (sha1_hex ''other''))
        \<and> canonicalize_event E (PDict items) \<noteq> Inr ''EV_OTHER''"
    if "dict_get items ''type'' = PNone \<and> dict_get items ''operation'' = PNone
        \<and> dict_get items ''verb'' = PNone"
    using that canonicalize_missing_type [of items E] symbol_not_sentinel [of "''other''"]
    by simp
  from a b show ?thesis by blast
qed

theorem canonicalize_event_sentinel_witness:
  "(\<forall>items. PNone \<noteq> PDict items)
   \<and> canonicalize_event quiet_env PNone = Inr ''EV_OTHER''
   \<and> dict_get [(''file'', PStr ''a.py'')] ''type'' = PNone
   \<and> dict_get [(''file'', PStr ''a.py'')] ''operation'' = PNone
   \<and> dict_get [(''file'', PStr ''a.py'')] ''verb'' = PNone
   \<and> canonicalize_event quiet_env (PDict [(''file'', PStr ''a.py'')])
      = Inr (''EV_'' @ take 6 (sha1_hex ''other''))"
  using canonicalize_event_sentinel [of PNone "quiet_env" "[(''file'', PStr ''a.py'')]"]
  by (simp add: dict_get_def)

text \<open>
  C4, as it is stated. The symbol of the empty record is the hashed symbol of \<open>other\<close>,
  not \<open>EV_OTHER\<close>. And a record whose declared type is a lone surrogate has no symbol:
  \<open>head.encode()\<close> raises \<open>UnicodeEncodeError\<close>.
\<close>

theorem canonicalize_empty_record_not_sentinel:
  "canonicalize_event quiet_env (PDict []) = Inr (''EV_'' @ take 6 (sha1_hex ''other''))
   \<and> canonicalize_event quiet_env (PDict []) \<noteq> Inr ''EV_OTHER''
   \<and> canonicalize_event quiet_env (PDict [(''type'', PStr [CHR 0xED, CHR 0xA0, CHR 0xBD])])
      = Inl UnicodeEncodeError"
proof -
  have a: "canonicalize_event quiet_env (PDict []) = Inr (''EV_'' @ take 6 (sha1_hex ''other''))"
    using canonicalize_missing_type [of "[]" quiet_env] by (simp add: dict_get_def)
  have b: "canonicalize_event quiet_env (PDict []) \<noteq> Inr ''EV_OTHER''"
    using a symbol_not_sentinel [of "''other''"] by simp
  have c: "canonicalize_event quiet_env (PDict [(''type'', PStr [CHR 0xED, CHR 0xA0, CHR 0xBD])])
      = Inl UnicodeEncodeError"
    by (simp add: canonicalize_event_def dict_get_def py_or_def truthy_def lower_str_def py_str_def
        py_lower_def py_strip_def is_ascii_def quiet_env_def is_delim_def encode_sha1_def Let_def)
  from a b c show ?thesis by blast
qed

subsection \<open>From a trace to its motifs\<close>

lemma file_head:
  assumes "t = ''file.create'' \<or> t = ''file.modify''"
  shows "lower_str E (PStr t) = Inr t" and "re_split t \<noteq> [] \<and> hd (re_split t) = ''file''"
  using assms
  by (auto simp: lower_str_def py_str_def py_lower_def is_ascii_def lower_def lower_char_def
      is_upper_def is_delim_def)

lemma canonicalize_file_event:
  assumes "dict_get items ''type'' = PStr t" "t = ''file.create'' \<or> t = ''file.modify''"
  shows "canonicalize_event E (PDict items) = Inr file_symbol"
proof -
  have ty: "py_or (py_or (dict_get items ''type'') (dict_get items ''operation''))
               (dict_get items ''verb'') = PStr t"
    using assms by (auto simp: py_or_def truthy_def)
  obtain parts where sp: "re_split t = ''file'' # parts"
    using file_head(2) [OF assms(2)] by (cases "re_split t") auto
  have st: "py_strip E ''file'' = ''file''"
    by (simp add: py_strip_def is_ascii_def strip_def is_space_def)
  have en: "encode_sha1 ''file'' = Inr (sha1_hex ''file'')"
    by (simp add: encode_sha1_def)
  show ?thesis
    unfolding canonicalize_event_def
    by (simp add: ty file_head(1) [OF assms(2)] sp st en file_symbol_def Let_def
        del: re_split.simps)
qed

lemma no_prompt_file_event:
  assumes "dict_get items ''type'' = PStr t" "t = ''file.create'' \<or> t = ''file.modify''"
  shows "extract_prompt_from_event E (PDict items) = Inr None"
  using assms file_head(1) [OF assms(2), of E]
  by (auto simp: extract_prompt_from_event_def)

lemma file_event_loop:
  assumes "dict_get items ''type'' = PStr t" "t = ''file.create'' \<or> t = ''file.modify''"
  shows "events_loop E include_prompts include_llm (PDict items # events) sequence =
     events_loop E include_prompts include_llm events (sequence @ [file_symbol])"
  by (cases include_prompts)
     (simp_all add: canonicalize_file_event [OF assms] no_prompt_file_event [OF assms])

lemma event_sequence_file_events:
  assumes "map_of titems ''events'' = Some (PList [PDict e1, PDict e2, PDict e3])"
    and "dict_get e1 ''type'' = PStr ''file.create''"
    and "dict_get e2 ''type'' = PStr ''file.modify''"
    and "dict_get e3 ''type'' = PStr ''file.create''"
    and "map_of titems ''prompts'' = None"
  shows "event_sequence E (PDict titems) include_prompts include_llm
     = Inr [file_symbol, file_symbol, file_symbol]"
proof -
  let ?loop = "events_loop E include_prompts include_llm"
  have "?loop [PDict e1, PDict e2, PDict e3] [] = ?loop [PDict e2, PDict e3] ([] @ [file_symbol])"
    by (rule file_event_loop [OF assms(2)]) simp
  also have "\<dots> = ?loop [PDict e3] (([] @ [file_symbol]) @ [file_symbol])"
    by (rule file_event_loop [OF assms(3)]) simp
  also have "\<dots> = ?loop [] ((([] @ [file_symbol]) @ [file_symbol]) @ [file_symbol])"
    by (rule file_event_loop [OF assms(4)]) simp
  also have "\<dots> = Inr [file_symbol, file_symbol, file_symbol]"
    by (simp only: events_loop.simps(1) append.simps)
  finally have loop: "?loop [PDict e1, PDict e2, PDict e3] []
      = Inr [file_symbol, file_symbol, file_symbol]" .
  have nop: "''prompts'' \<notin> dom (map_of titems)"
    using assms(5) by (simp add: domIff)
  show ?thesis
    unfolding event_sequence_def
    by (simp only: pyval.case assms(1) option.case loop sum.case nop simp_thms if_False)
qed

lemma structural_three_equal: "structural_motifs [s, s, s] = []"
  by (simp add: structural_motifs_def counter_of_def upt_rec numeral_eq_Suc)

lemma no_cycle_transition:
  "filter (\<lambda>m. startswith m ''CYCLE_'') (transition_motifs seq max_count) = []"
proof -
  have "set (py_take max_count xs) \<subseteq> set xs" for xs :: "string list"
    by (auto simp: py_take_def dest: in_set_takeD)
  then have "m \<in> set (transition_motifs seq max_count) \<Longrightarrow> \<exists>rest. m = ''T_'' @ rest" for m
    by (fastforce simp: transition_motifs_def split: if_splits)
  then show ?thesis
    by (fastforce simp: filter_empty_conv startswith_def)
qed

lemma no_cycle_prefixspan:
  "filter (\<lambda>m. startswith m ''CYCLE_'') (prefixspan_motifs seq min_support max_len) = []"
  by (auto simp: filter_empty_conv prefixspan_motifs_def startswith_def)

lemma no_cycle_sequitur:
  "filter (\<lambda>m. startswith m ''CYCLE_'') (sequitur_rules seq) = []"
  by (auto simp: filter_empty_conv sequitur_rules_def sq_bigram_def sq_trigram_def startswith_def)

lemma no_cycle_three_equal:
  "filter (\<lambda>m. startswith m ''CYCLE_'')
     (concat [transition_motifs [s, s, s] 100, structural_motifs [s, s, s],
              prefixspan_motifs [s, s, s] 2 4, sequitur_rules [s, s, s]]) = []"
  by (simp add: no_cycle_transition no_cycle_prefixspan no_cycle_sequitur structural_three_equal)

lemma motifs_from_three_equal:
  "motifs_from_sequence [s, s, s] max_total st =
     unify_motifs [transition_motifs [s, s, s] 100, structural_motifs [s, s, s],
                   prefixspan_motifs [s, s, s] 2 4, sequitur_rules [s, s, s]] max_total True st"
  by (simp add: motifs_from_sequence_def)

lemma registered_by_unify:
  assumes "registry (snd (unify_motifs motif_lists max_total True st)) h = Some raw"
  shows "raw \<in> set (concat motif_lists) \<or> registry st h = Some raw"
proof -
  have st': "snd (unify_motifs motif_lists max_total True st)
        = snd (snd (unify_loop True (concat motif_lists) [] {} st))"
    by (simp add: unify_motifs_def split: prod.splits)
  show ?thesis
  proof (cases "find (\<lambda>m. ''M_'' @ take 10 (sha1_hex m) = h \<and> take 10 (sha1_hex m) \<notin> {})
                     (concat motif_lists)")
    case None
    then show ?thesis
      using assms unfolding st' unify_loop_registry by simp
  next
    case (Some m)
    then obtain i where "i < length (concat motif_lists)" "concat motif_lists ! i = m"
      unfolding find_Some_iff by blast
    then have "m \<in> set (concat motif_lists)"
      using nth_mem by blast
    moreover have "raw = m"
      using assms Some unfolding st' unify_loop_registry by simp
    ultimately show ?thesis by simp
  qed
qed

text \<open>
  C3, as the code has it. A trace of three events with the declared types \<open>file.create\<close>,
  \<open>file.modify\<close>, \<open>file.create\<close> and no stored prompts gives three times the same symbol,
  the one of the head \<open>file\<close>. None of the raw motifs mined from such a sequence starts
  with \<open>CYCLE_\<close>, and the hashed motifs that \<open>motifs_from_sequence\<close> returns are the hashed
  forms of these raw motifs.
\<close>

theorem end_to_end_equal_symbols:
  "(map_of titems ''events'' = Some (PList [PDict e1, PDict e2, PDict e3])
      \<and> dict_get e1 ''type'' = PStr ''file.create''
      \<and> dict_get e2 ''type'' = PStr ''file.modify''
      \<and> dict_get e3 ''type'' = PStr ''file.create''
      \<and> map_of titems ''prompts'' = None
    \<longrightarrow> event_sequence E (PDict titems) include_prompts include_llm
          = Inr [file_symbol, file_symbol, file_symbol])
   \<and> filter (\<lambda>m. startswith m ''CYCLE_'')
        (concat [transition_motifs [file_symbol, file_symbol, file_symbol] 100,
                 structural_motifs [file_symbol, file_symbol, file_symbol],
                 prefixspan_motifs [file_symbol, file_symbol, file_symbol] 2 4,
                 sequitur_rules [file_symbol, file_symbol, file_symbol]]) = []
   \<and> fst (motifs_from_sequence [file_symbol, file_symbol, file_symbol] max_total st)
       = py_take max_total (first_occurrences (map hashed_form
           (concat [transition_motifs [file_symbol, file_symbol, file_symbol] 100,
                    structural_motifs [file_symbol, file_symbol, file_symbol],
                    prefixspan_motifs [file_symbol, file_symbol, file_symbol] 2 4,
                    sequitur_rules [file_symbol, file_symbol, file_symbol]])))"
proof -
  have a: "event_sequence E (PDict titems) include_prompts include_llm
          = Inr [file_symbol, file_symbol, file_symbol]"
    if "map_of titems ''events'' = Some (PList [PDict e1, PDict e2, PDict e3])
      \<and> dict_get e1 ''type'' = PStr ''file.create''
      \<and> dict_get e2 ''type'' = PStr ''file.modify''
      \<and> dict_get e3 ''type'' = PStr ''file.create''
      \<and> map_of titems ''prompts'' = None"
    using that event_sequence_file_events [of titems e1 e2 e3 E include_prompts include_llm]
    by blast
  note b = no_cycle_three_equal [of file_symbol]
  have c: "fst (motifs_from_sequence [file_symbol, file_symbol, file_symbol] max_total st)
       = py_take max_total (first_occurrences (map hashed_form
           (concat [transition_motifs [file_symbol, file_symbol, file_symbol] 100,
                    structural_motifs [file_symbol, file_symbol, file_symbol],
                    prefixspan_motifs [file_symbol, file_symbol, file_symbol] 2 4,
                    sequitur_rules [file_symbol, file_symbol, file_symbol]])))"
    unfolding motifs_from_three_equal by (rule unify_motifs_out)
  from a b c show ?thesis by blast
qed

theorem end_to_end_equal_symbols_witness:
  "map_of [(''events'', PList [PDict [(''type'', PStr ''file.create'')],
                              PDict [(''type'', PStr ''file.modify'')],
                              PDict [(''type'', PStr ''file.create'')]])] ''events''
     = Some (PList [PDict [(''type'', PStr ''file.create'')],
                    PDict [(''type'', PStr ''file.modify'')],
                    PDict [(''type'', PStr ''file.create'')]])
   \<and> dict_get [(''type'', PStr ''file.create'')] ''type'' = PStr ''file.create''
   \<and> dict_get [(''type'', PStr ''file.modify'')] ''type'' = PStr ''file.modify''
   \<and> map_of [(''events'', PList [PDict [(''type'', PStr ''file.create'')],
                              PDict [(''type'', PStr ''file.modify'')],
                              PDict [(''type'', PStr ''file.create'')]])] ''prompts'' = None
   \<and> event_sequence quiet_env file_trace True False
       = Inr [file_symbol, file_symbol, file_symbol]"
  using end_to_end_equal_symbols
    [of "[(''events'', PList [PDict [(''type'', PStr ''file.create'')],
                             PDict [(''type'', PStr ''file.modify'')],
                             PDict [(''type'', PStr ''file.create'')]])]"
        "[(''type'', PStr ''file.create'')]" "[(''type'', PStr ''file.modify'')]"
        "[(''type'', PStr ''file.create'')]" quiet_env True False]
  by (simp add: file_trace_def typed_event_def dict_get_def)

text \<open>
  C3, as it is stated: none of the hashed motifs mined from the example trace is registered
  for a raw motif that starts with \<open>CYCLE_\<close>.
\<close>

theorem end_to_end_no_cycle_motif:
  "event_sequence quiet_env file_trace True False = Inr [file_symbol, file_symbol, file_symbol]
   \<and> \<not> (\<exists>h \<in> set (fst (motifs_from_sequence [file_symbol, file_symbol, file_symbol] 300 empty_registry)).
          \<exists>raw. get_original h
                   (snd (motifs_from_sequence [file_symbol, file_symbol, file_symbol] 300 empty_registry))
                 = Some raw
               \<and> startswith raw ''CYCLE_'')"
proof -
  have a: "event_sequence quiet_env file_trace True False = Inr [file_symbol, file_symbol, file_symbol]"
    using event_sequence_file_events
      [of "[(''events'', PList [PDict [(''type'', PStr ''file.create'')],
                               PDict [(''type'', PStr ''file.modify'')],
                               PDict [(''type'', PStr ''file.create'')]])]"
          "[(''type'', PStr ''file.create'')]" "[(''type'', PStr ''file.modify'')]"
          "[(''type'', PStr ''file.create'')]" quiet_env True False]
    by (simp add: file_trace_def typed_event_def dict_get_def)
  have b: "\<not> startswith raw ''CYCLE_''"
    if "get_original h (snd (motifs_from_sequence [file_symbol, file_symbol, file_symbol] 300 empty_registry))
        = Some raw" for h raw
  proof -
    let ?raws = "concat [transition_motifs [file_symbol, file_symbol, file_symbol] 100,
                         structural_motifs [file_symbol, file_symbol, file_symbol],
                         prefixspan_motifs [file_symbol, file_symbol, file_symbol] 2 4,
                         sequitur_rules [file_symbol, file_symbol, file_symbol]]"
    have "raw \<in> set ?raws \<or> registry empty_registry h = Some raw"
      using that unfolding motifs_from_three_equal get_original_def
      by (rule registered_by_unify)
    then have "raw \<in> set ?raws"
      by (simp add: empty_registry_def)
    then show ?thesis
      using no_cycle_three_equal [of file_symbol] unfolding filter_empty_conv by blast
  qed
  from a b show ?thesis by blast
qed

end
